theory Spec2Isabelle
  imports Main "HOL-Library.Word"
begin

unbundle bit_operations_syntax

section \<open>Values shared by the assembler and the interpreter\<close>

text \<open>
  Python integers are unbounded, so operands, accumulator and memory cells are \<open>int\<close>;
  \<open>&\<close>, \<open>|\<close>, \<open><<\<close> and \<open>>>\<close> on them are \<open>AND\<close>, \<open>OR\<close>, \<open>push_bit\<close> and
  \<open>drop_bit\<close> (two's complement on negative numbers, as in Python). A \<open>bytes\<close> value is a
  list of 8-bit words.
\<close>

type_synonym byte = "8 word"

text \<open>
  One constructor for each place where the source raises. The first five are the
  \<open>ValueError\<close>s of \<open>parse_program\<close>, \<open>StructError\<close> is \<open>struct.error\<close>,
  \<open>BadCommandLength\<close> the \<open>ValueError\<close> of \<open>disassemble_command\<close>, \<open>BadProgramSize\<close>
  the \<open>ValueError\<close> of \<open>load_program\<close>, \<open>OverflowError\<close> comes from \<open>int.to_bytes\<close>,
  \<open>MemoryOutOfBounds\<close> is the \<open>MemoryError\<close> and \<open>UnknownOpcode\<close> the \<open>ValueError\<close>
  raised inside \<open>execute_step\<close>.
\<close>

datatype exn =
    UnknownOperation string
  | OperandNotInteger
  | ConstantOutOfRange int
  | AddressNotNonNegative
  | AddressTooLarge int
  | StructError
  | BadCommandLength
  | BadProgramSize
  | OverflowError
  | MemoryOutOfBounds int
  | UnknownOpcode int

text \<open>A call either returns a value or raises; the state it leaves behind is kept beside it.\<close>

datatype 'a outcome = Returned 'a | Raised exn

section \<open>assembler.py\<close>

text \<open>The class attribute \<open>OPCODES\<close>, a dict in insertion order.\<close>

definition OPCODES :: "(string \<times> int) list" where
  "OPCODES = [(''LOAD_CONST'', 58), (''LOAD_MEM'', 19), (''STORE_MEM'', 24), (''ABS'', 7)]"

text \<open>
  \<open>parse_program\<close> is modelled after \<open>json.loads\<close>: a command is a decoded JSON object
  with a string under \<open>opcode\<close> and any value under \<open>operand\<close>. All the code asks of the
  operand's type is \<open>isinstance(operand, int)\<close>, so a value is an integer or it is not.
\<close>

datatype jvalue = JInt int | JNotInt

record raw_cmd =
  raw_opcode :: string
  raw_operand :: jvalue

text \<open>The dicts of the internal representation, also returned by \<open>disassemble_command\<close>.\<close>

record instr =
  opcode :: string
  opcode_num :: int
  operand :: int

text \<open>The body of the \<open>for cmd in commands\<close> loop of \<open>parse_program\<close>.\<close>

definition parse_cmd :: "raw_cmd \<Rightarrow> exn + instr" where
  "parse_cmd cmd =
     (case map_of OPCODES (raw_opcode cmd) of
        None \<Rightarrow> Inl (UnknownOperation (raw_opcode cmd))
      | Some num \<Rightarrow>
          if raw_opcode cmd = ''LOAD_CONST'' then
            (case raw_operand cmd of
               JNotInt \<Rightarrow> Inl OperandNotInteger
             | JInt x \<Rightarrow>
                 if x < - 0x10000 \<or> x > 0x1FFFF then Inl (ConstantOutOfRange x)
                 else Inr \<lparr>opcode = raw_opcode cmd, opcode_num = num,
                            operand = (if x < 0 then push_bit 17 1 + x else x)\<rparr>)
          else
            (case raw_operand cmd of
               JNotInt \<Rightarrow> Inl AddressNotNonNegative
             | JInt x \<Rightarrow>
                 if x < 0 then Inl AddressNotNonNegative
                 else if x > 0x7FFFFFFF then Inl (AddressTooLarge x)
                 else Inr \<lparr>opcode = raw_opcode cmd, opcode_num = num, operand = x\<rparr>))"

text \<open>The loop: commands are taken in order and the first failure aborts the call.\<close>

fun parse_program :: "raw_cmd list \<Rightarrow> exn + instr list" where
  "parse_program [] = Inr []"
| "parse_program (cmd # cmds) =
     (case parse_cmd cmd of
        Inl e \<Rightarrow> Inl e
      | Inr i \<Rightarrow> (case parse_program cmds of Inl e \<Rightarrow> Inl e | Inr is \<Rightarrow> Inr (i # is)))"

text \<open>
  \<open>struct.pack('<BI', byte0, rest)\<close>: one unsigned byte and one unsigned 32-bit integer,
  little-endian and unpadded; a value outside its field raises \<open>struct.error\<close>.
\<close>

definition struct_pack_BI :: "int \<Rightarrow> int \<Rightarrow> exn + byte list" where
  "struct_pack_BI b i =
     (if b < 0 \<or> b > 0xFF \<or> i < 0 \<or> i > 0xFFFFFFFF then Inl StructError
      else Inr [word_of_int b, word_of_int i, word_of_int (drop_bit 8 i),
                word_of_int (drop_bit 16 i), word_of_int (drop_bit 24 i)])"

text \<open>\<open>int.from_bytes(bs, 'little')\<close>.\<close>

fun from_bytes_little :: "byte list \<Rightarrow> int" where
  "from_bytes_little [] = 0"
| "from_bytes_little (b # bs) = uint b + 256 * from_bytes_little bs"

text \<open>\<open>struct.unpack('<BI', bs)\<close>, which wants exactly five bytes.\<close>

fun struct_unpack_BI :: "byte list \<Rightarrow> exn + (int \<times> int)" where
  "struct_unpack_BI [b0, b1, b2, b3, b4] = Inr (uint b0, from_bytes_little [b1, b2, b3, b4])"
| "struct_unpack_BI _ = Inl StructError"

text \<open>The body of the loop of \<open>assemble_to_bytes\<close>: one command to its five bytes.\<close>

definition encode_cmd :: "instr \<Rightarrow> exn + byte list" where
  "encode_cmd cmd =
     (if opcode cmd = ''LOAD_CONST'' then
        (let opd = (if operand cmd > 0x1FFFF then operand cmd AND 0x1FFFF else operand cmd);
             byte0 = opcode_num cmd OR push_bit 6 (opd AND 0x3);
             rest = drop_bit 2 opd
         in struct_pack_BI byte0 rest)
      else
        (let byte0 = opcode_num cmd OR push_bit 6 (operand cmd AND 0x3);
             rest = drop_bit 2 (operand cmd)
         in struct_pack_BI byte0 rest))"

fun assemble_to_bytes :: "instr list \<Rightarrow> exn + byte list" where
  "assemble_to_bytes [] = Inr []"
| "assemble_to_bytes (cmd # cmds) =
     (case encode_cmd cmd of
        Inl e \<Rightarrow> Inl e
      | Inr bs \<Rightarrow>
          (case assemble_to_bytes cmds of Inl e \<Rightarrow> Inl e | Inr rest \<Rightarrow> Inr (bs @ rest)))"

text \<open>Decimal digits of a number, for the name \<open>UNKNOWN_<code>\<close>.\<close>

fun str_nat :: "nat \<Rightarrow> string" where
  "str_nat n = (if n < 10 then [char_of (48 + n)] else str_nat (n div 10) @ [char_of (48 + n mod 10)])"

declare str_nat.simps [simp del]

definition disassemble_command :: "byte list \<Rightarrow> exn + instr" where
  "disassemble_command command_bytes =
     (if length command_bytes \<noteq> 5 then Inl BadCommandLength
      else
        (case struct_unpack_BI command_bytes of
           Inl e \<Rightarrow> Inl e
         | Inr (byte0, rest) \<Rightarrow>
             (let num = byte0 AND 0x3F;
                  operand_low = drop_bit 6 byte0 AND 0x3;
                  opd = push_bit 2 rest OR operand_low;
                  opd' = (if num = 58 then (if opd AND 0x10000 \<noteq> 0 then opd - push_bit 17 1 else opd)
                          else opd);
                  name = (case find (\<lambda>(name, code). code = num) OPCODES of
                            Some (name, code) \<Rightarrow> name
                          | None \<Rightarrow> ''UNKNOWN_'' @ str_nat (nat num))
              in Inr \<lparr>opcode = name, opcode_num = num, operand = opd'\<rparr>)))"

text \<open>
  The two calls every caller makes in a row (\<open>main\<close>, \<open>run_tests\<close> and the demo):
  \<open>assemble_to_bytes(parse_program(...))\<close>.
\<close>

definition assemble_program :: "raw_cmd list \<Rightarrow> exn + byte list" where
  "assemble_program cmds =
     (case parse_program cmds of Inl e \<Rightarrow> Inl e | Inr internal_repr \<Rightarrow> assemble_to_bytes internal_repr)"

text \<open>
  The round trip of \<open>run_tests\<close>: a one-command program is assembled and its bytes are
  handed to \<open>disassemble_command\<close>.
\<close>

definition assemble_disassemble :: "string \<Rightarrow> int \<Rightarrow> exn + instr" where
  "assemble_disassemble name x =
     (case assemble_program [\<lparr>raw_opcode = name, raw_operand = JInt x\<rparr>] of
        Inl e \<Rightarrow> Inl e
      | Inr binary_data \<Rightarrow> disassemble_command binary_data)"


text \<open>
  The operand rules in the words of the specification (section 4.2), not of the code: an
  instruction as written, of one of the four operations, against its validated and
  normalised form. The operand is an integer; for \<open>LOAD_CONST\<close> it lies in
  [-65536, 131071] and a negative one is replaced by operand + 131072; for the other
  three it lies in [0, 0x7FFFFFFF] and stays. The numeric codes are those of the
  specification's table. \<open>parse_program\<close> is compared with it below.
\<close>

definition spec_validated :: "raw_cmd \<Rightarrow> instr \<Rightarrow> bool" where
  "spec_validated cmd i =
     (case raw_operand cmd of
        JNotInt \<Rightarrow> False
      | JInt x \<Rightarrow>
          if raw_opcode cmd = ''LOAD_CONST'' then
            - 65536 \<le> x \<and> x \<le> 131071 \<and>
            i = \<lparr>opcode = ''LOAD_CONST'', opcode_num = 58,
                 operand = (if x < 0 then x + 131072 else x)\<rparr>
          else
            0 \<le> x \<and> x \<le> 0x7FFFFFFF \<and>
            i = \<lparr>opcode = raw_opcode cmd,
                 opcode_num = (if raw_opcode cmd = ''LOAD_MEM'' then 19
                               else if raw_opcode cmd = ''STORE_MEM'' then 24 else 7),
                 operand = x\<rparr>)"

section \<open>interpreter.py\<close>

record machine =
  memory :: "int list"
  accumulator :: int
  pc :: nat
  halted :: bool

text \<open>The constructor \<open>UVMInterpreter(memory_size)\<close>.\<close>

definition init_machine :: "nat \<Rightarrow> machine" where
  "init_machine memory_size =
     \<lparr>memory = replicate memory_size 0, accumulator = 0, pc = 0, halted = False\<rparr>"

text \<open>
  The loop \<open>for i in range(0, program_size, 5)\<close> of \<open>load_program\<close>, started at \<open>i\<close>;
  \<open>binary_data[i:i+5]\<close> is \<open>take 5 (drop i binary_data)\<close>.
\<close>

function load_loop :: "nat \<Rightarrow> byte list \<Rightarrow> int list \<Rightarrow> int list" where
  "load_loop i binary_data mem =
     (if i < length binary_data then
        load_loop (i + 5) binary_data
          (if i div 5 < length mem
           then mem[i div 5 := from_bytes_little (take 5 (drop i binary_data))]
           else mem)
      else mem)"
  by pat_completeness auto
termination
  by (relation "measure (\<lambda>(i, binary_data, mem). length binary_data - i)") auto

declare load_loop.simps [simp del]

definition load_program :: "machine \<Rightarrow> byte list \<Rightarrow> unit outcome \<times> machine" where
  "load_program m binary_data =
     (if length binary_data mod 5 \<noteq> 0 then (Raised BadProgramSize, m)
      else
        (let m1 = m\<lparr>memory := replicate (length (memory m)) 0\<rparr>;
             m2 = m1\<lparr>accumulator := 0\<rparr>;
             m3 = m2\<lparr>pc := 0\<rparr>;
             m4 = m3\<lparr>halted := False\<rparr>
         in (Returned (), m4\<lparr>memory := load_loop 0 binary_data (memory m4)\<rparr>)))"

text \<open>\<open>command.to_bytes(5, 'little')\<close>: a negative or too large number raises.\<close>

definition to_bytes5_little :: "int \<Rightarrow> exn + byte list" where
  "to_bytes5_little n =
     (if n < 0 \<or> n \<ge> 2 ^ 40 then Inl OverflowError
      else Inr [word_of_int n, word_of_int (drop_bit 8 n), word_of_int (drop_bit 16 n),
                word_of_int (drop_bit 24 n), word_of_int (drop_bit 32 n)])"

definition decode_command :: "int \<Rightarrow> exn + (int \<times> int)" where
  "decode_command command =
     (case to_bytes5_little command of
        Inl e \<Rightarrow> Inl e
      | Inr command_bytes \<Rightarrow>
          (case struct_unpack_BI command_bytes of
             Inl e \<Rightarrow> Inl e
           | Inr (byte0, rest) \<Rightarrow>
               (let opc = byte0 AND 0x3F;
                    operand_low = drop_bit 6 byte0 AND 0x3;
                    opd = push_bit 2 rest OR operand_low
                in Inr (opc, opd))))"

text \<open>
  The body of the \<open>try\<close> of \<open>execute_step\<close> up to, and without, \<open>self.pc += 1\<close>. It
  returns the exception raised, if any, with the state as the statements before the
  \<open>raise\<close> left it.
\<close>

definition dispatch :: "machine \<Rightarrow> int \<Rightarrow> int \<Rightarrow> exn option \<times> machine" where
  "dispatch m opc opd =
     (if opc = 58 then
        (let opd' = (if opd AND 0x10000 \<noteq> 0 then opd - push_bit 17 1 else opd)
         in (None, m\<lparr>accumulator := opd'\<rparr>))
      else if opc = 19 then
        (if opd \<ge> int (length (memory m)) then (Some (MemoryOutOfBounds opd), m)
         else (None, m\<lparr>accumulator := memory m ! nat opd\<rparr>))
      else if opc = 24 then
        (if opd \<ge> int (length (memory m)) then (Some (MemoryOutOfBounds opd), m)
         else (None, m\<lparr>memory := (memory m)[nat opd := accumulator m]\<rparr>))
      else if opc = 7 then
        (let m1 = m\<lparr>accumulator := \<bar>accumulator m\<bar>\<rparr>
         in if opd \<ge> int (length (memory m1)) then (Some (MemoryOutOfBounds opd), m1)
            else (None, m1\<lparr>memory := (memory m1)[nat opd := accumulator m1]\<rparr>))
      else (Some (UnknownOpcode opc), m))"

text \<open>
  \<open>execute_step\<close>. \<open>decode_command\<close> is called before the \<open>try\<close>, so its
  \<open>OverflowError\<close> leaves the method; what the \<open>try\<close> raises is caught and halts.
\<close>

definition execute_step :: "machine \<Rightarrow> bool outcome \<times> machine" where
  "execute_step m =
     (if halted m \<or> pc m \<ge> length (memory m) then (Returned False, m)
      else
        (let command = memory m ! pc m in
         if command = 0 then (Returned False, m)
         else
           (case decode_command command of
              Inl e \<Rightarrow> (Raised e, m)
            | Inr (opc, opd) \<Rightarrow>
                (case dispatch m opc opd of
                   (None, m') \<Rightarrow> (Returned True, m'\<lparr>pc := pc m' + 1\<rparr>)
                 | (Some e, m') \<Rightarrow> (Returned False, m'\<lparr>halted := True\<rparr>)))))"

section \<open>demo.py\<close>

text \<open>
  The driving loop of \<open>demo_basic\<close>, \<open>step = 0; while interpreter.execute_step(): step += 1\<close>.
  It ends: a successful step moves the program counter one cell closer to the end of the
  memory, whose length no step changes.
\<close>

function step_loop :: "nat \<Rightarrow> machine \<Rightarrow> nat outcome \<times> machine" where
  "step_loop step m =
     (case execute_step m of
        (Returned ok, m') \<Rightarrow> if ok then step_loop (step + 1) m' else (Returned step, m')
      | (Raised e, m') \<Rightarrow> (Raised e, m'))"
  by pat_completeness auto
termination
  by (relation "measure (\<lambda>(step, m). length (memory m) - pc m)")
    (auto simp: execute_step_def dispatch_def Let_def
      split: if_splits sum.splits prod.splits option.splits)

declare step_loop.simps [simp del]

text \<open>
  \<open>demo_basic\<close> without its printing: the program is assembled, loaded into a fresh
  machine of the given size and stepped until \<open>execute_step\<close> returns \<open>False\<close>. The result
  is the number of steps counted and the final state, or the exception that ended it.
\<close>

definition demo_basic :: "raw_cmd list \<Rightarrow> nat \<Rightarrow> exn + (nat \<times> machine)" where
  "demo_basic program memory_size =
     (case assemble_program program of
        Inl e \<Rightarrow> Inl e
      | Inr binary_data \<Rightarrow>
          (case load_program (init_machine memory_size) binary_data of
             (Raised e, m) \<Rightarrow> Inl e
           | (Returned u, m) \<Rightarrow>
               (case step_loop 0 m of
                  (Raised e, m') \<Rightarrow> Inl e
                | (Returned step, m') \<Rightarrow> Inr (step, m'))))"

text \<open>The program of \<open>demo_basic\<close>.\<close>

definition test_program :: "raw_cmd list" where
  "test_program =
     [\<lparr>raw_opcode = ''LOAD_CONST'', raw_operand = JInt 42\<rparr>,
      \<lparr>raw_opcode = ''STORE_MEM'', raw_operand = JInt 100\<rparr>,
      \<lparr>raw_opcode = ''LOAD_CONST'', raw_operand = JInt 15\<rparr>,
      \<lparr>raw_opcode = ''ABS'', raw_operand = JInt 101\<rparr>,
      \<lparr>raw_opcode = ''LOAD_MEM'', raw_operand = JInt 100\<rparr>]"

section \<open>Bytes and bit fields\<close>

lemma uint8_of_int: "0 \<le> b \<Longrightarrow> b \<le> 255 \<Longrightarrow> uint (word_of_int b :: byte) = b"
  by (simp add: uint_word_of_int_eq take_bit_int_eq_self)

lemma le_bytes_32:
  fixes i :: int
  assumes "0 \<le> i" "i \<le> 0xFFFFFFFF"
  shows "from_bytes_little [word_of_int i, word_of_int (drop_bit 8 i),
            word_of_int (drop_bit 16 i), word_of_int (drop_bit 24 i) :: byte] = i"
proof -
  have "i div 16777216 < 256" using assms by simp
  moreover have "0 \<le> i div 16777216" using assms by simp
  ultimately have top: "i div 16777216 mod 256 = i div 16777216" by simp
  have d1: "i div 16777216 = i div 65536 div 256"
    by (simp add: zdiv_zmult2_eq [symmetric])
  have d2: "i div 65536 = i div 256 div 256"
    by (simp add: zdiv_zmult2_eq [symmetric])
  have s1: "i div 65536 mod 256 + 256 * (i div 16777216) = i div 65536"
    unfolding d1 by simp
  have s2: "i div 256 mod 256 + 256 * (i div 65536) = i div 256"
    unfolding d2 by simp
  show ?thesis
    by (simp add: uint_word_of_int_eq take_bit_eq_mod drop_bit_eq_div top s1 s2)
qed

lemma unpack_pack:
  assumes "0 \<le> b" "b \<le> 255" "0 \<le> i" "i \<le> 0xFFFFFFFF"
  shows "\<exists>bs. struct_pack_BI b i = Inr bs \<and> length bs = 5 \<and> struct_unpack_BI bs = Inr (b, i)"
  using assms le_bytes_32 [of i] uint8_of_int [of b]
  by (simp add: struct_pack_BI_def)

lemma and3: "(y::int) AND 3 = take_bit 2 y"
  using take_bit_eq_mask [of 2 y] by (simp add: mask_eq_exp_minus_1)

lemma and3F: "(y::int) AND 0x3F = take_bit 6 y"
  using take_bit_eq_mask [of 6 y] by (simp add: mask_eq_exp_minus_1)

lemma byte0_opcode: "0 \<le> c \<Longrightarrow> c < 64 \<Longrightarrow> (c OR push_bit 6 (y AND 3)) AND 0x3F = (c::int)"
  by (simp add: and3F take_bit_int_eq_self bit_eq_iff bit_simps)

lemma byte0_low:
  fixes c y :: int
  assumes "0 \<le> c" "c < 64"
  shows "drop_bit 6 (c OR push_bit 6 (y AND 3)) AND 3 = y AND 3"
proof -
  have "drop_bit 6 c = 0"
    using assms by (simp add: drop_bit_eq_div)
  then have "drop_bit 6 (c OR push_bit 6 (y AND 3)) = y AND 3"
    by (simp add: drop_bit_or drop_bit_push_bit)
  then show ?thesis
    by (simp add: and3)
qed

lemma byte0_range:
  fixes c y :: int
  assumes "0 \<le> c" "c < 64"
  shows "0 \<le> (c OR push_bit 6 (y AND 3))" and "(c OR push_bit 6 (y AND 3)) \<le> 255"
proof -
  have t: "take_bit 8 (c OR push_bit 6 (y AND 3)) = c OR push_bit 6 (y AND 3)"
    using assms
    by (auto simp add: and3 take_bit_int_eq_self bit_eq_iff bit_simps)
  show "0 \<le> (c OR push_bit 6 (y AND 3))"
    using assms by (simp add: and3)
  have "take_bit 8 (c OR push_bit 6 (y AND 3)) < 2 ^ 8"
    by (rule take_bit_int_less_exp)
  then show "(c OR push_bit 6 (y AND 3)) \<le> 255"
    unfolding t by simp
qed

lemma Suc_Suc_diff_2: "2 \<le> n \<Longrightarrow> Suc (Suc (n - 2)) = n"
  by simp

lemma operand_rejoin: "push_bit 2 (drop_bit 2 y) OR (y AND 3) = (y::int)"
  by (rule bit_eqI) (auto simp: and3 bit_simps Suc_Suc_diff_2)

lemma drop2_range:
  "0 \<le> (y::int) \<Longrightarrow> y \<le> 0x7FFFFFFF \<Longrightarrow> 0 \<le> drop_bit 2 y \<and> drop_bit 2 y \<le> 0xFFFFFFFF"
  by (simp add: drop_bit_eq_div) arith

text \<open>Bit 16 of a 17-bit pattern is set exactly from 65536 on.\<close>

lemma and_bit16:
  fixes y :: int
  assumes "0 \<le> y" "y < 131072"
  shows "(y AND 0x10000 \<noteq> 0) = (65536 \<le> y)"
proof -
  have "(y AND 2 ^ 16 = 0) = (\<not> bit y 16)"
    by (rule and_exp_eq_0_iff_not_bit)
  moreover have "bit y 16 = (65536 \<le> y)"
  proof (cases "65536 \<le> y")
    case True
    then have "y div 65536 = 1" using assms by simp
    then show ?thesis using True by (simp add: bit_iff_odd)
  next
    case False
    then have "y div 65536 = 0" using assms by simp
    then show ?thesis using False by (simp add: bit_iff_odd)
  qed
  ultimately show ?thesis by simp
qed

lemma pack_fields:
  fixes c y :: int
  assumes "0 \<le> c" "c < 64" "0 \<le> y" "y \<le> 0x7FFFFFFF"
  shows "\<exists>bs. struct_pack_BI (c OR push_bit 6 (y AND 0x3)) (drop_bit 2 y) = Inr bs \<and> length bs = 5
           \<and> struct_unpack_BI bs = Inr (c OR push_bit 6 (y AND 0x3), drop_bit 2 y)"
  using assms byte0_range [of c y] drop2_range [of y]
  by (intro unpack_pack) simp_all

section \<open>The assembler\<close>

text \<open>
  What \<open>disassemble_command\<close> makes of the five bytes of a command whose operand fits
  the 31-bit field and whose code fits the 6-bit field.
\<close>

lemma disassemble_encoded:
  fixes c y :: int
  assumes "0 \<le> c" "c < 64" "0 \<le> y" "y \<le> 0x7FFFFFFF"
    and enc: "encode_cmd cmd = struct_pack_BI (c OR push_bit 6 (y AND 0x3)) (drop_bit 2 y)"
  shows "(case assemble_to_bytes [cmd] of Inl e \<Rightarrow> Inl e | Inr bs \<Rightarrow> disassemble_command bs) =
     Inr \<lparr>opcode = (case find (\<lambda>(name, code). code = c) OPCODES of
                            Some (name, code) \<Rightarrow> name
                          | None \<Rightarrow> ''UNKNOWN_'' @ str_nat (nat c)),
          opcode_num = c,
          operand = (if c = 58 then (if y AND 0x10000 \<noteq> 0 then y - push_bit 17 1 else y) else y)\<rparr>"
proof -
  define b0 where "b0 = c OR push_bit 6 (y AND 0x3)"
  define r where "r = drop_bit 2 y"
  obtain bs where bs: "struct_pack_BI b0 r = Inr bs"
    "length bs = 5" "struct_unpack_BI bs = Inr (b0, r)"
    using pack_fields [OF assms(1-4)] unfolding b0_def r_def by blast
  have f1: "b0 AND 0x3F = c"
    unfolding b0_def using assms(1,2) by (rule byte0_opcode)
  have f2: "push_bit 2 r OR (drop_bit 6 b0 AND 0x3) = y"
    unfolding b0_def r_def byte0_low [OF assms(1,2)] by (rule operand_rejoin)
  have a: "assemble_to_bytes [cmd] = Inr bs"
    using enc bs(1) unfolding b0_def r_def by simp
  have d: "disassemble_command bs =
     Inr \<lparr>opcode = (case find (\<lambda>(name, code). code = c) OPCODES of
                            Some (name, code) \<Rightarrow> name
                          | None \<Rightarrow> ''UNKNOWN_'' @ str_nat (nat c)),
          opcode_num = c,
          operand = (if c = 58 then (if y AND 0x10000 \<noteq> 0 then y - push_bit 17 1 else y) else y)\<rparr>"
    by (simp add: disassemble_command_def bs(2,3) f1 f2 Let_def cong: option.case_cong)
  show ?thesis
    unfolding a using d by simp
qed

lemma roundtrip_address:
  assumes "name \<in> {''LOAD_MEM'', ''STORE_MEM'', ''ABS''}" "0 \<le> x" "x \<le> 0x7FFFFFFF"
  shows "assemble_disassemble name x =
           Inr \<lparr>opcode = name, opcode_num = the (map_of OPCODES name), operand = x\<rparr>"
proof -
  let ?c = "the (map_of OPCODES name)"
  let ?cmd = "\<lparr>opcode = name, opcode_num = ?c, operand = x\<rparr>"
  have p: "parse_program [\<lparr>raw_opcode = name, raw_operand = JInt x\<rparr>] = Inr [?cmd]"
    using assms by (auto simp: parse_cmd_def OPCODES_def)
  have c: "0 \<le> ?c" "?c < 64" "?c \<noteq> 58" "find (\<lambda>(name, code). code = ?c) OPCODES = Some (name, ?c)"
    using assms(1) by (auto simp: OPCODES_def)
  have e: "encode_cmd ?cmd = struct_pack_BI (?c OR push_bit 6 (x AND 0x3)) (drop_bit 2 x)"
    using assms(1) by (auto simp: encode_cmd_def)
  show ?thesis
    unfolding assemble_disassemble_def assemble_program_def p
    using disassemble_encoded [OF c(1,2) assms(2,3) e] c(3,4) by simp
qed

lemma roundtrip_const:
  assumes "- 65536 \<le> x" "x \<le> 131071"
  shows "assemble_disassemble ''LOAD_CONST'' x =
           Inr \<lparr>opcode = ''LOAD_CONST'', opcode_num = 58,
                operand = (if 65536 \<le> x then x - 131072 else x)\<rparr>"
proof -
  let ?y = "if x < 0 then push_bit 17 1 + x else x"
  let ?cmd = "\<lparr>opcode = ''LOAD_CONST'', opcode_num = 58, operand = ?y\<rparr>"
  have p: "parse_program [\<lparr>raw_opcode = ''LOAD_CONST'', raw_operand = JInt x\<rparr>] = Inr [?cmd]"
    using assms by (simp add: parse_cmd_def OPCODES_def)
  have y: "0 \<le> ?y" "?y < 131072" "?y \<le> 0x7FFFFFFF"
    using assms by auto
  have e: "encode_cmd ?cmd = struct_pack_BI (58 OR push_bit 6 (?y AND 0x3)) (drop_bit 2 ?y)"
    using y by (simp add: encode_cmd_def Let_def)
  have f: "find (\<lambda>(name, code). code = (58::int)) OPCODES = Some (''LOAD_CONST'', 58)"
    by (simp add: OPCODES_def)
  have d: "(case assemble_to_bytes [?cmd] of Inl e \<Rightarrow> Inl e | Inr bs \<Rightarrow> disassemble_command bs) =
      Inr \<lparr>opcode = ''LOAD_CONST'', opcode_num = 58,
           operand = (if ?y AND 0x10000 \<noteq> 0 then ?y - push_bit 17 1 else ?y)\<rparr>"
    using disassemble_encoded [OF _ _ y(1) y(3) e] by (simp add: f)
  show ?thesis
    unfolding assemble_disassemble_def assemble_program_def p
    using d and_bit16 [OF y(1,2)] assms by (auto split: if_splits)
qed

text \<open>
  Claim C1, as the code has it. Assembling one command and disassembling its five bytes
  gives back the operation and the operand for \<open>LOAD_MEM\<close>, \<open>STORE_MEM\<close> and \<open>ABS\<close>
  with an operand from 0 to 0x7FFFFFFF, and for \<open>LOAD_CONST\<close> with an operand from
  -65536 to 65535 (so \<open>LOAD_CONST -15\<close> comes back as -15). A \<open>LOAD_CONST\<close> operand
  from 65536 to 131071 is accepted too, but its bit 16 is read as the sign on the way
  back, and the operand that comes back is 131072 less.
\<close>

theorem assemble_disassemble_roundtrip:
  "(- 65536 \<le> x \<and> x \<le> 65535 \<longrightarrow>
      assemble_disassemble ''LOAD_CONST'' x =
        Inr \<lparr>opcode = ''LOAD_CONST'', opcode_num = 58, operand = x\<rparr>) \<and>
   (65536 \<le> x \<and> x \<le> 131071 \<longrightarrow>
      assemble_disassemble ''LOAD_CONST'' x =
        Inr \<lparr>opcode = ''LOAD_CONST'', opcode_num = 58, operand = x - 131072\<rparr>) \<and>
   (0 \<le> x \<and> x \<le> 0x7FFFFFFF \<longrightarrow>
      assemble_disassemble ''LOAD_MEM'' x =
        Inr \<lparr>opcode = ''LOAD_MEM'', opcode_num = 19, operand = x\<rparr> \<and>
      assemble_disassemble ''STORE_MEM'' x =
        Inr \<lparr>opcode = ''STORE_MEM'', opcode_num = 24, operand = x\<rparr> \<and>
      assemble_disassemble ''ABS'' x =
        Inr \<lparr>opcode = ''ABS'', opcode_num = 7, operand = x\<rparr>) \<and>
   assemble_disassemble ''LOAD_CONST'' (- 15) =
     Inr \<lparr>opcode = ''LOAD_CONST'', opcode_num = 58, operand = - 15\<rparr>"
proof -
  have mem: "the (map_of OPCODES ''LOAD_MEM'') = 19" "the (map_of OPCODES ''STORE_MEM'') = 24"
    "the (map_of OPCODES ''ABS'') = 7"
    by (simp_all add: OPCODES_def)
  have "assemble_disassemble ''LOAD_CONST'' x =
          Inr \<lparr>opcode = ''LOAD_CONST'', opcode_num = 58, operand = x\<rparr>"
    if "- 65536 \<le> x" "x \<le> 65535"
    using roundtrip_const [of x] that by simp
  moreover have "assemble_disassemble ''LOAD_CONST'' x =
          Inr \<lparr>opcode = ''LOAD_CONST'', opcode_num = 58, operand = x - 131072\<rparr>"
    if "65536 \<le> x" "x \<le> 131071"
    using roundtrip_const [of x] that by simp
  moreover have "assemble_disassemble ''LOAD_MEM'' x =
          Inr \<lparr>opcode = ''LOAD_MEM'', opcode_num = 19, operand = x\<rparr>"
    if "0 \<le> x" "x \<le> 0x7FFFFFFF"
    using roundtrip_address [of "''LOAD_MEM''" x] that by (simp add: mem)
  moreover have "assemble_disassemble ''STORE_MEM'' x =
          Inr \<lparr>opcode = ''STORE_MEM'', opcode_num = 24, operand = x\<rparr>"
    if "0 \<le> x" "x \<le> 0x7FFFFFFF"
    using roundtrip_address [of "''STORE_MEM''" x] that by (simp add: mem)
  moreover have "assemble_disassemble ''ABS'' x =
          Inr \<lparr>opcode = ''ABS'', opcode_num = 7, operand = x\<rparr>"
    if "0 \<le> x" "x \<le> 0x7FFFFFFF"
    using roundtrip_address [of "''ABS''" x] that by (simp add: mem)
  moreover have "assemble_disassemble ''LOAD_CONST'' (- 15) =
          Inr \<lparr>opcode = ''LOAD_CONST'', opcode_num = 58, operand = - 15\<rparr>"
    using roundtrip_const [of "- 15"] by simp
  ultimately show ?thesis
    by blast
qed

theorem assemble_disassemble_roundtrip_witness:
  "assemble_disassemble ''LOAD_CONST'' (- 65536) =
     Inr \<lparr>opcode = ''LOAD_CONST'', opcode_num = 58, operand = - 65536\<rparr> \<and>
   assemble_disassemble ''LOAD_CONST'' 131071 =
     Inr \<lparr>opcode = ''LOAD_CONST'', opcode_num = 58, operand = - 1\<rparr> \<and>
   assemble_disassemble ''STORE_MEM'' 0x7FFFFFFF =
     Inr \<lparr>opcode = ''STORE_MEM'', opcode_num = 24, operand = 0x7FFFFFFF\<rparr>"
  using assemble_disassemble_roundtrip [of "- 65536"] assemble_disassemble_roundtrip [of 131071]
    assemble_disassemble_roundtrip [of "0x7FFFFFFF"]
  by simp

text \<open>
  The round trip as the spec states it fails at \<open>LOAD_CONST 65536\<close>: the operand is in
  the accepted range and comes back as -65536.
\<close>

theorem load_const_65536_not_recovered:
  "parse_program [\<lparr>raw_opcode = ''LOAD_CONST'', raw_operand = JInt 65536\<rparr>] =
     Inr [\<lparr>opcode = ''LOAD_CONST'', opcode_num = 58, operand = 65536\<rparr>] \<and>
   assemble_disassemble ''LOAD_CONST'' 65536 =
     Inr \<lparr>opcode = ''LOAD_CONST'', opcode_num = 58, operand = - 65536\<rparr> \<and>
   assemble_disassemble ''LOAD_CONST'' 65536 \<noteq>
     Inr \<lparr>opcode = ''LOAD_CONST'', opcode_num = 58, operand = 65536\<rparr>"
  by (simp add: assemble_disassemble_def assemble_program_def parse_cmd_def OPCODES_def
      encode_cmd_def struct_pack_BI_def disassemble_command_def)

text \<open>
  Claim C3. The four encodings of the specification, byte for byte: \<open>LOAD_CONST 308\<close> is
  3A 4D 00 00 00, \<open>LOAD_MEM 705\<close> is 53 B0 00 00 00, \<open>STORE_MEM 791\<close> is D8 C5 00 00 00
  and \<open>ABS 870\<close> is 87 D9 00 00 00.
\<close>

theorem literal_encodings:
  "assemble_program [\<lparr>raw_opcode = ''LOAD_CONST'', raw_operand = JInt 308\<rparr>] =
     Inr [0x3A, 0x4D, 0x00, 0x00, 0x00] \<and>
   assemble_program [\<lparr>raw_opcode = ''LOAD_MEM'', raw_operand = JInt 705\<rparr>] =
     Inr [0x53, 0xB0, 0x00, 0x00, 0x00] \<and>
   assemble_program [\<lparr>raw_opcode = ''STORE_MEM'', raw_operand = JInt 791\<rparr>] =
     Inr [0xD8, 0xC5, 0x00, 0x00, 0x00] \<and>
   assemble_program [\<lparr>raw_opcode = ''ABS'', raw_operand = JInt 870\<rparr>] =
     Inr [0x87, 0xD9, 0x00, 0x00, 0x00]"
  by (simp add: assemble_program_def parse_cmd_def OPCODES_def encode_cmd_def struct_pack_BI_def)

text \<open>
  The loop of \<open>parse_program\<close> at a command anywhere in the program: what precedes it is
  parsed first, then the command, then what follows.
\<close>

lemma parse_program_append:
  "parse_program (pre @ cmd # post) =
     (case parse_program pre of
        Inl e \<Rightarrow> Inl e
      | Inr ps \<Rightarrow>
          (case parse_cmd cmd of
             Inl e \<Rightarrow> Inl e
           | Inr i \<Rightarrow>
               (case parse_program post of Inl e \<Rightarrow> Inl e | Inr qs \<Rightarrow> Inr (ps @ i # qs))))"
  by (induction pre) (auto split: sum.splits)

lemma parse_program_Cons_Inr:
  "(parse_program (cmd # cmds) = Inr is) =
     (\<exists>i js. is = i # js \<and> parse_cmd cmd = Inr i \<and> parse_program cmds = Inr js)"
  by (auto split: sum.splits)

lemma parse_cmd_validated:
  assumes "raw_opcode cmd \<in> {''LOAD_CONST'', ''LOAD_MEM'', ''STORE_MEM'', ''ABS''}"
  shows "(parse_cmd cmd = Inr i) = spec_validated cmd i"
  using assms
  by (auto simp: parse_cmd_def OPCODES_def spec_validated_def split: jvalue.splits)

lemma parse_program_validated:
  assumes "list_all (\<lambda>c. raw_opcode c \<in> {''LOAD_CONST'', ''LOAD_MEM'', ''STORE_MEM'', ''ABS''}) cmds"
  shows "(parse_program cmds = Inr is) = list_all2 spec_validated cmds is"
  using assms
proof (induction cmds arbitrary: "is")
  case Nil
  then show ?case by auto
next
  case (Cons c cmds)
  have c: "(parse_cmd c = Inr i) = spec_validated c i" for i
    using Cons.prems parse_cmd_validated [of c i] by simp
  have r: "(parse_program cmds = Inr js) = list_all2 spec_validated cmds js" for js
    using Cons by simp
  show ?case
    unfolding parse_program_Cons_Inr c r by (auto simp: list_all2_Cons1)
qed

lemma parse_cmd_const:
  "parse_cmd \<lparr>raw_opcode = ''LOAD_CONST'', raw_operand = JInt x\<rparr> =
     (if - 65536 \<le> x \<and> x \<le> 131071
      then Inr \<lparr>opcode = ''LOAD_CONST'', opcode_num = 58,
                operand = (if x < 0 then x + 131072 else x)\<rparr>
      else Inl (ConstantOutOfRange x))"
  "parse_cmd \<lparr>raw_opcode = ''LOAD_CONST'', raw_operand = JNotInt\<rparr> = Inl OperandNotInteger"
  by (simp_all add: parse_cmd_def OPCODES_def)

lemma parse_cmd_address:
  assumes "name = ''LOAD_MEM'' \<and> num = 19 \<or> name = ''STORE_MEM'' \<and> num = 24 \<or>
           name = ''ABS'' \<and> num = 7"
  shows "parse_cmd \<lparr>raw_opcode = name, raw_operand = JInt x\<rparr> =
     (if 0 \<le> x \<and> x \<le> 0x7FFFFFFF
      then Inr \<lparr>opcode = name, opcode_num = num, operand = x\<rparr>
      else Inl (if x < 0 then AddressNotNonNegative else AddressTooLarge x))"
    and "parse_cmd \<lparr>raw_opcode = name, raw_operand = JNotInt\<rparr> = Inl AddressNotNonNegative"
  using assms by (auto simp: parse_cmd_def OPCODES_def)

text \<open>
  Claim C4. Validation of the operands, for every instruction of a program of any
  length. A program of the four operations is accepted exactly when each of its
  instructions meets the operand rule of its operation, and the result is then the
  list of their normalised forms, in order. For an instruction at any place in a
  program, after instructions that were accepted: a \<open>LOAD_CONST\<close> operand is accepted
  exactly from -65536 to 131071, anything else raises the range error, and an accepted
  negative operand is stored as operand + 131072; an operand of \<open>LOAD_MEM\<close>,
  \<open>STORE_MEM\<close> or \<open>ABS\<close> is accepted exactly from 0 to 0x7FFFFFFF and stored as it is,
  and a negative one and one above 0x7FFFFFFF raise; an operand that is not an integer
  raises for every operation.
\<close>

theorem parse_program_operand_rules:
  "(list_all (\<lambda>c. raw_opcode c \<in> {''LOAD_CONST'', ''LOAD_MEM'', ''STORE_MEM'', ''ABS''}) cmds \<longrightarrow>
      (parse_program cmds = Inr is) = list_all2 spec_validated cmds is) \<and>
   parse_program (pre @ \<lparr>raw_opcode = ''LOAD_CONST'', raw_operand = JInt x\<rparr> # post) =
     (case parse_program pre of
        Inl e \<Rightarrow> Inl e
      | Inr ps \<Rightarrow>
          if - 65536 \<le> x \<and> x \<le> 131071 then
            (case parse_program post of
               Inl e \<Rightarrow> Inl e
             | Inr qs \<Rightarrow>
                 Inr (ps @ \<lparr>opcode = ''LOAD_CONST'', opcode_num = 58,
                            operand = (if x < 0 then x + 131072 else x)\<rparr> # qs))
          else Inl (ConstantOutOfRange x)) \<and>
   ((name = ''LOAD_MEM'' \<and> num = 19 \<or> name = ''STORE_MEM'' \<and> num = 24 \<or>
     name = ''ABS'' \<and> num = 7) \<longrightarrow>
      parse_program (pre @ \<lparr>raw_opcode = name, raw_operand = JInt x\<rparr> # post) =
        (case parse_program pre of
           Inl e \<Rightarrow> Inl e
         | Inr ps \<Rightarrow>
             if 0 \<le> x \<and> x \<le> 0x7FFFFFFF then
               (case parse_program post of
                  Inl e \<Rightarrow> Inl e
                | Inr qs \<Rightarrow> Inr (ps @ \<lparr>opcode = name, opcode_num = num, operand = x\<rparr> # qs))
             else Inl (if x < 0 then AddressNotNonNegative else AddressTooLarge x)) \<and>
      parse_program (pre @ \<lparr>raw_opcode = name, raw_operand = JNotInt\<rparr> # post) =
        (case parse_program pre of Inl e \<Rightarrow> Inl e | Inr ps \<Rightarrow> Inl AddressNotNonNegative)) \<and>
   parse_program (pre @ \<lparr>raw_opcode = ''LOAD_CONST'', raw_operand = JNotInt\<rparr> # post) =
     (case parse_program pre of Inl e \<Rightarrow> Inl e | Inr ps \<Rightarrow> Inl OperandNotInteger) \<and>
   parse_program [] = Inr []"
proof (intro conjI impI)
  show "(parse_program cmds = Inr is) = list_all2 spec_validated cmds is"
    if "list_all (\<lambda>c. raw_opcode c \<in> {''LOAD_CONST'', ''LOAD_MEM'', ''STORE_MEM'', ''ABS''}) cmds"
    using that by (rule parse_program_validated)
next
  show "parse_program (pre @ \<lparr>raw_opcode = ''LOAD_CONST'', raw_operand = JInt x\<rparr> # post) =
     (case parse_program pre of
        Inl e \<Rightarrow> Inl e
      | Inr ps \<Rightarrow>
          if - 65536 \<le> x \<and> x \<le> 131071 then
            (case parse_program post of
               Inl e \<Rightarrow> Inl e
             | Inr qs \<Rightarrow>
                 Inr (ps @ \<lparr>opcode = ''LOAD_CONST'', opcode_num = 58,
                            operand = (if x < 0 then x + 131072 else x)\<rparr> # qs))
          else Inl (ConstantOutOfRange x))"
    unfolding parse_program_append parse_cmd_const by (simp split: sum.split)
next
  assume n: "name = ''LOAD_MEM'' \<and> num = 19 \<or> name = ''STORE_MEM'' \<and> num = 24 \<or>
     name = ''ABS'' \<and> num = 7"
  show "parse_program (pre @ \<lparr>raw_opcode = name, raw_operand = JInt x\<rparr> # post) =
        (case parse_program pre of
           Inl e \<Rightarrow> Inl e
         | Inr ps \<Rightarrow>
             if 0 \<le> x \<and> x \<le> 0x7FFFFFFF then
               (case parse_program post of
                  Inl e \<Rightarrow> Inl e
                | Inr qs \<Rightarrow> Inr (ps @ \<lparr>opcode = name, opcode_num = num, operand = x\<rparr> # qs))
             else Inl (if x < 0 then AddressNotNonNegative else AddressTooLarge x))"
    unfolding parse_program_append parse_cmd_address(1) [OF n] by (simp split: sum.split)
  show "parse_program (pre @ \<lparr>raw_opcode = name, raw_operand = JNotInt\<rparr> # post) =
        (case parse_program pre of Inl e \<Rightarrow> Inl e | Inr ps \<Rightarrow> Inl AddressNotNonNegative)"
    unfolding parse_program_append parse_cmd_address(2) [OF n] by (simp split: sum.split)
next
  show "parse_program (pre @ \<lparr>raw_opcode = ''LOAD_CONST'', raw_operand = JNotInt\<rparr> # post) =
     (case parse_program pre of Inl e \<Rightarrow> Inl e | Inr ps \<Rightarrow> Inl OperandNotInteger)"
    unfolding parse_program_append parse_cmd_const by (simp split: sum.split)
next
  show "parse_program [] = Inr []"
    by simp
qed

text \<open>
  Programs of two and three instructions: the boundary values are accepted or refused
  in the second and third place as they are in the first.
\<close>

theorem parse_program_operand_rules_witness:
  "parse_program
     [\<lparr>raw_opcode = ''LOAD_CONST'', raw_operand = JInt 1\<rparr>,
      \<lparr>raw_opcode = ''LOAD_CONST'', raw_operand = JInt 131072\<rparr>,
      \<lparr>raw_opcode = ''STORE_MEM'', raw_operand = JInt (- 1)\<rparr>] =
     Inl (ConstantOutOfRange 131072) \<and>
   parse_program
     [\<lparr>raw_opcode = ''LOAD_CONST'', raw_operand = JInt 131071\<rparr>,
      \<lparr>raw_opcode = ''STORE_MEM'', raw_operand = JInt (- 1)\<rparr>,
      \<lparr>raw_opcode = ''LOAD_CONST'', raw_operand = JInt 131072\<rparr>] =
     Inl AddressNotNonNegative \<and>
   parse_program
     [\<lparr>raw_opcode = ''LOAD_MEM'', raw_operand = JInt 7\<rparr>,
      \<lparr>raw_opcode = ''LOAD_CONST'', raw_operand = JInt (- 65537)\<rparr>] =
     Inl (ConstantOutOfRange (- 65537)) \<and>
   parse_program
     [\<lparr>raw_opcode = ''LOAD_CONST'', raw_operand = JInt 0\<rparr>,
      \<lparr>raw_opcode = ''ABS'', raw_operand = JInt 0x80000000\<rparr>] =
     Inl (AddressTooLarge 0x80000000) \<and>
   parse_program
     [\<lparr>raw_opcode = ''ABS'', raw_operand = JInt 0x7FFFFFFF\<rparr>,
      \<lparr>raw_opcode = ''LOAD_CONST'', raw_operand = JInt (- 65536)\<rparr>,
      \<lparr>raw_opcode = ''LOAD_CONST'', raw_operand = JInt 131071\<rparr>] =
     Inr [\<lparr>opcode = ''ABS'', opcode_num = 7, operand = 0x7FFFFFFF\<rparr>,
          \<lparr>opcode = ''LOAD_CONST'', opcode_num = 58, operand = 65536\<rparr>,
          \<lparr>opcode = ''LOAD_CONST'', opcode_num = 58, operand = 131071\<rparr>]"
proof -
  have p1: "parse_program
     [\<lparr>raw_opcode = ''LOAD_CONST'', raw_operand = JInt 1\<rparr>,
      \<lparr>raw_opcode = ''LOAD_CONST'', raw_operand = JInt 131072\<rparr>,
      \<lparr>raw_opcode = ''STORE_MEM'', raw_operand = JInt (- 1)\<rparr>] =
     Inl (ConstantOutOfRange 131072)"
    using parse_program_operand_rules
      [of "[]" "[]" "[\<lparr>raw_opcode = ''LOAD_CONST'', raw_operand = JInt 1\<rparr>]" 131072
          "[\<lparr>raw_opcode = ''STORE_MEM'', raw_operand = JInt (- 1)\<rparr>]" "''ABS''" 7]
    by (simp add: parse_cmd_def OPCODES_def)
  have p2: "parse_program
     [\<lparr>raw_opcode = ''LOAD_CONST'', raw_operand = JInt 131071\<rparr>,
      \<lparr>raw_opcode = ''STORE_MEM'', raw_operand = JInt (- 1)\<rparr>,
      \<lparr>raw_opcode = ''LOAD_CONST'', raw_operand = JInt 131072\<rparr>] =
     Inl AddressNotNonNegative"
    using parse_program_operand_rules
      [of "[]" "[]" "[\<lparr>raw_opcode = ''LOAD_CONST'', raw_operand = JInt 131071\<rparr>]" "- 1"
          "[\<lparr>raw_opcode = ''LOAD_CONST'', raw_operand = JInt 131072\<rparr>]" "''STORE_MEM''" 24]
    by (simp add: parse_cmd_def OPCODES_def)
  have p3: "parse_program
     [\<lparr>raw_opcode = ''LOAD_MEM'', raw_operand = JInt 7\<rparr>,
      \<lparr>raw_opcode = ''LOAD_CONST'', raw_operand = JInt (- 65537)\<rparr>] =
     Inl (ConstantOutOfRange (- 65537))"
    using parse_program_operand_rules
      [of "[]" "[]" "[\<lparr>raw_opcode = ''LOAD_MEM'', raw_operand = JInt 7\<rparr>]" "- 65537"
          "[]" "''ABS''" 7]
    by (simp add: parse_cmd_def OPCODES_def)
  have p4: "parse_program
     [\<lparr>raw_opcode = ''LOAD_CONST'', raw_operand = JInt 0\<rparr>,
      \<lparr>raw_opcode = ''ABS'', raw_operand = JInt 0x80000000\<rparr>] =
     Inl (AddressTooLarge 0x80000000)"
    using parse_program_operand_rules
      [of "[]" "[]" "[\<lparr>raw_opcode = ''LOAD_CONST'', raw_operand = JInt 0\<rparr>]" "0x80000000"
          "[]" "''ABS''" 7]
    by (simp add: parse_cmd_def OPCODES_def)
  have p5: "parse_program
     [\<lparr>raw_opcode = ''ABS'', raw_operand = JInt 0x7FFFFFFF\<rparr>,
      \<lparr>raw_opcode = ''LOAD_CONST'', raw_operand = JInt (- 65536)\<rparr>,
      \<lparr>raw_opcode = ''LOAD_CONST'', raw_operand = JInt 131071\<rparr>] =
     Inr [\<lparr>opcode = ''ABS'', opcode_num = 7, operand = 0x7FFFFFFF\<rparr>,
          \<lparr>opcode = ''LOAD_CONST'', opcode_num = 58, operand = 65536\<rparr>,
          \<lparr>opcode = ''LOAD_CONST'', opcode_num = 58, operand = 131071\<rparr>]"
    using parse_program_operand_rules
      [of "[\<lparr>raw_opcode = ''ABS'', raw_operand = JInt 0x7FFFFFFF\<rparr>,
            \<lparr>raw_opcode = ''LOAD_CONST'', raw_operand = JInt (- 65536)\<rparr>,
            \<lparr>raw_opcode = ''LOAD_CONST'', raw_operand = JInt 131071\<rparr>]"
          "[\<lparr>opcode = ''ABS'', opcode_num = 7, operand = 0x7FFFFFFF\<rparr>,
            \<lparr>opcode = ''LOAD_CONST'', opcode_num = 58, operand = 65536\<rparr>,
            \<lparr>opcode = ''LOAD_CONST'', opcode_num = 58, operand = 131071\<rparr>]"
          "[]" 0 "[]" "''ABS''" 7]
    by (simp add: spec_validated_def)
  show ?thesis
    using p1 p2 p3 p4 p5 by blast
qed

section \<open>Loading a program\<close>

lemma length_load_loop: "length (load_loop i binary_data mem) = length mem"
  by (induction i binary_data mem rule: load_loop.induct) (simp add: load_loop.simps)

text \<open>
  The loop started at byte \<open>5 * k\<close> writes cell \<open>j\<close> exactly when \<open>k \<le> j\<close> and the data
  reaches byte \<open>5 * j\<close>; every other cell keeps its value.
\<close>

lemma nth_load_loop:
  "j < length mem \<Longrightarrow>
   load_loop (5 * k) binary_data mem ! j =
     (if k \<le> j \<and> 5 * j < length binary_data
      then from_bytes_little (take 5 (drop (5 * j) binary_data))
      else mem ! j)"
proof (induction "5 * k" binary_data mem arbitrary: k rule: load_loop.induct)
  case (1 binary_data mem)
  show ?case
  proof (cases "5 * k < length binary_data")
    case False
    then show ?thesis
      by (auto simp: load_loop.simps [of "5 * k"])
  next
    case True
    define mem' where "mem' =
      (if 5 * k div 5 < length mem
       then mem[5 * k div 5 := from_bytes_little (take 5 (drop (5 * k) binary_data))]
       else mem)"
    have e5: "5 * k + 5 = 5 * Suc k"
      by simp
    have len: "j < length mem'"
      using "1.prems" by (simp add: mem'_def)
    have nth': "mem' ! j =
      (if j = k then from_bytes_little (take 5 (drop (5 * k) binary_data)) else mem ! j)"
      using "1.prems" by (auto simp: mem'_def)
    have step: "load_loop (5 * k) binary_data mem = load_loop (5 * k + 5) binary_data mem'"
      unfolding mem'_def using True by (subst load_loop.simps) (simp only: if_True)
    have ih: "load_loop (5 * Suc k) binary_data mem' ! j =
       (if Suc k \<le> j \<and> 5 * j < length binary_data
        then from_bytes_little (take 5 (drop (5 * j) binary_data))
        else mem' ! j)"
      using "1.hyps" [OF True e5, folded mem'_def] len by simp
    show ?thesis
      unfolding step e5 ih nth' using True by auto
  qed
qed

lemma memory_load_program:
  assumes "length binary_data mod 5 = 0"
  shows "memory (snd (load_program m binary_data)) =
     map (\<lambda>i. if i < length binary_data div 5
               then from_bytes_little (take 5 (drop (5 * i) binary_data)) else 0)
       [0..<length (memory m)]"
proof (rule nth_equalityI)
  show "length (memory (snd (load_program m binary_data))) =
     length (map (\<lambda>i. if i < length binary_data div 5
               then from_bytes_little (take 5 (drop (5 * i) binary_data)) else 0)
       [0..<length (memory m)])"
    using assms by (simp add: load_program_def length_load_loop)
next
  fix j
  assume "j < length (memory (snd (load_program m binary_data)))"
  then have j: "j < length (memory m)"
    using assms by (simp add: load_program_def length_load_loop)
  obtain q where "length binary_data = 5 * q"
    using assms by (auto simp: mod_eq_0_iff_dvd)
  then have "(5 * j < length binary_data) = (j < length binary_data div 5)"
    by simp
  then show "memory (snd (load_program m binary_data)) ! j =
     map (\<lambda>i. if i < length binary_data div 5
               then from_bytes_little (take 5 (drop (5 * i) binary_data)) else 0)
       [0..<length (memory m)] ! j"
    using assms j nth_load_loop [of j "replicate (length (memory m)) 0" 0 binary_data]
    by (simp add: load_program_def)
qed

text \<open>
  Claim C6. A program whose length is not a multiple of 5 makes \<open>load_program\<close> raise,
  and memory, accumulator, program counter and \<open>halted\<close> are as they were. Otherwise the
  call returns with accumulator 0, program counter 0 and \<open>halted\<close> false, and with a
  memory of the same length in which cell \<open>i\<close> holds the little-endian integer of the
  bytes from \<open>5 * i\<close> up to \<open>5 * i + 5\<close> for each instruction \<open>i\<close> of the program, and 0
  in every cell after the program.
\<close>

theorem load_program_all_or_nothing:
 "(length binary_data mod 5 \<noteq> 0 \<longrightarrow>
     load_program m binary_data = (Raised BadProgramSize, m)) \<and>
  (length binary_data mod 5 = 0 \<longrightarrow>
     fst (load_program m binary_data) = Returned () \<and>
     accumulator (snd (load_program m binary_data)) = 0 \<and>
     pc (snd (load_program m binary_data)) = 0 \<and>
     halted (snd (load_program m binary_data)) = False \<and>
     memory (snd (load_program m binary_data)) =
       map (\<lambda>i. if i < length binary_data div 5
               then from_bytes_little (take 5 (drop (5 * i) binary_data)) else 0)
         [0..<length (memory m)])"
  using memory_load_program [of binary_data m]
  by (simp add: load_program_def)

theorem load_program_all_or_nothing_witness:
  "load_program \<lparr>memory = [7, 8, 9], accumulator = 4, pc = 2, halted = True\<rparr> [0x3A, 0x4D, 0x00] =
     (Raised BadProgramSize, \<lparr>memory = [7, 8, 9], accumulator = 4, pc = 2, halted = True\<rparr>) \<and>
   fst (load_program \<lparr>memory = [7, 8, 9], accumulator = 4, pc = 2, halted = True\<rparr>
          [0x3A, 0x4D, 0x00, 0x00, 0x00, 0x53, 0xB0, 0x00, 0x00, 0x00]) = Returned () \<and>
   snd (load_program \<lparr>memory = [7, 8, 9], accumulator = 4, pc = 2, halted = True\<rparr>
          [0x3A, 0x4D, 0x00, 0x00, 0x00, 0x53, 0xB0, 0x00, 0x00, 0x00]) =
     \<lparr>memory = [19770, 45139, 0], accumulator = 0, pc = 0, halted = False\<rparr>"
  using load_program_all_or_nothing
      [of "[0x3A, 0x4D, 0x00]" "\<lparr>memory = [7, 8, 9], accumulator = 4, pc = 2, halted = True\<rparr>"]
    load_program_all_or_nothing
      [of "[0x3A, 0x4D, 0x00, 0x00, 0x00, 0x53, 0xB0, 0x00, 0x00, 0x00]"
          "\<lparr>memory = [7, 8, 9], accumulator = 4, pc = 2, halted = True\<rparr>"]
  by (simp add: upt_rec_numeral)

text \<open>
  Claim C10. A program of a length that is a multiple of 5 and has more instructions than
  the machine has cells is loaded without an exception: the call returns, the memory
  keeps its length and holds the first instruction words, one per cell, and the
  instructions beyond the last cell are in no cell.
\<close>

theorem load_program_drops_excess:
  assumes "length binary_data mod 5 = 0" "length binary_data > 5 * length (memory m)"
  shows "fst (load_program m binary_data) = Returned () \<and>
     memory (snd (load_program m binary_data)) =
       map (\<lambda>i. from_bytes_little (take 5 (drop (5 * i) binary_data))) [0..<length (memory m)]"
proof -
  obtain q where "length binary_data = 5 * q"
    using assms(1) by (auto simp: mod_eq_0_iff_dvd)
  then have "i < length binary_data div 5" if "i < length (memory m)" for i
    using that assms(2) by simp
  then show ?thesis
    using memory_load_program [OF assms(1), of m] assms(1)
    by (simp add: load_program_def)
qed

theorem load_program_drops_excess_witness:
  "fst (load_program (init_machine 1)
          [0x3A, 0x4D, 0x00, 0x00, 0x00, 0x53, 0xB0, 0x00, 0x00, 0x00]) = Returned () \<and>
   memory (snd (load_program (init_machine 1)
          [0x3A, 0x4D, 0x00, 0x00, 0x00, 0x53, 0xB0, 0x00, 0x00, 0x00])) = [19770]"
  using load_program_drops_excess
      [of "[0x3A, 0x4D, 0x00, 0x00, 0x00, 0x53, 0xB0, 0x00, 0x00, 0x00]" "init_machine 1"]
  by (simp add: init_machine_def)

section \<open>Stepping\<close>

text \<open>
  A decoded operand is never negative, so the index \<open>nat opd\<close> of \<open>dispatch\<close> is the
  operand itself wherever \<open>execute_step\<close> reads or writes a cell.
\<close>

lemma from_bytes_little_nonneg: "0 \<le> from_bytes_little bs"
  by (induction bs) simp_all

lemma decode_command_nonneg:
  assumes "decode_command command = Inr (opc, opd)"
  shows "0 \<le> opd"
proof -
  obtain bs where bs: "to_bytes5_little command = Inr bs"
    using assms by (auto simp: decode_command_def split: sum.splits)
  obtain byte0 rest where u: "struct_unpack_BI bs = Inr (byte0, rest)"
    using assms bs by (auto simp: decode_command_def split: sum.splits)
  have "0 \<le> byte0" "0 \<le> rest"
    using u from_bytes_little_nonneg
    by (induction bs rule: struct_unpack_BI.induct) auto
  moreover have "opd = push_bit 2 rest OR (drop_bit 6 byte0 AND 0x3)"
    using assms bs u by (simp add: decode_command_def Let_def)
  ultimately show ?thesis
    by simp
qed

text \<open>
  Claim C2, as the code has it. With the program counter at or beyond the end of the
  memory, or with 0 in the cell it points to, \<open>execute_step\<close> executes nothing and
  returns \<open>False\<close>, and the state is the one it was called in: \<open>halted\<close> keeps its value
  and is not set.
\<close>

theorem execute_step_end_of_program:
  "length (memory m) \<le> pc m \<or> memory m ! pc m = 0 \<Longrightarrow> execute_step m = (Returned False, m)"
  by (auto simp add: execute_step_def)

theorem execute_step_end_of_program_witness:
  "execute_step \<lparr>memory = [2746, 0], accumulator = 42, pc = 1, halted = False\<rparr> =
     (Returned False, \<lparr>memory = [2746, 0], accumulator = 42, pc = 1, halted = False\<rparr>) \<and>
   execute_step \<lparr>memory = [2746], accumulator = 42, pc = 1, halted = False\<rparr> =
     (Returned False, \<lparr>memory = [2746], accumulator = 42, pc = 1, halted = False\<rparr>)"
  using execute_step_end_of_program
      [of "\<lparr>memory = [2746, 0], accumulator = 42, pc = 1, halted = False\<rparr>"]
    execute_step_end_of_program
      [of "\<lparr>memory = [2746], accumulator = 42, pc = 1, halted = False\<rparr>"]
  by simp

text \<open>
  The machine is not halted after such a step: on a fresh machine of one cell the word
  fetched is 0, on a fresh machine without cells the program counter is at the end of
  the memory, and in both \<open>halted\<close> is false after \<open>execute_step\<close>.
\<close>

theorem execute_step_end_not_halted:
  "pc (init_machine 1) < length (memory (init_machine 1)) \<and>
   memory (init_machine 1) ! pc (init_machine 1) = 0 \<and>
   fst (execute_step (init_machine 1)) = Returned False \<and>
   \<not> halted (snd (execute_step (init_machine 1))) \<and>
   length (memory (init_machine 0)) \<le> pc (init_machine 0) \<and>
   fst (execute_step (init_machine 0)) = Returned False \<and>
   \<not> halted (snd (execute_step (init_machine 0)))"
  by (simp add: init_machine_def execute_step_def)

text \<open>
  Claim C5. A step that reaches the dispatch and fails there, by an operand of
  \<open>LOAD_MEM\<close>, \<open>STORE_MEM\<close> or \<open>ABS\<close> at or beyond the end of the memory or by a code that
  is none of the four, raises the memory error or the unknown-code error inside the
  \<open>try\<close> and returns \<open>False\<close> with \<open>halted\<close> set, the program counter where it
  was and the memory unwritten. The accumulator is unchanged too, except for \<open>ABS\<close>; so
  a failed \<open>STORE_MEM\<close> keeps the accumulator and writes no cell.
\<close>

theorem execute_step_failure_halts:
  assumes "\<not> halted m" "pc m < length (memory m)" "memory m ! pc m \<noteq> 0"
    and "decode_command (memory m ! pc m) = Inr (opc, opd)"
    and "(opc \<in> {19, 24, 7} \<and> opd \<ge> int (length (memory m))) \<or> opc \<notin> {58, 19, 24, 7}"
  shows "fst (dispatch m opc opd) =
           Some (if opc \<in> {19, 24, 7} then MemoryOutOfBounds opd else UnknownOpcode opc) \<and>
         fst (execute_step m) = Returned False \<and> halted (snd (execute_step m)) \<and>
         pc (snd (execute_step m)) = pc m \<and> memory (snd (execute_step m)) = memory m \<and>
         (opc \<noteq> 7 \<longrightarrow> accumulator (snd (execute_step m)) = accumulator m)"
  using assms by (auto simp: execute_step_def dispatch_def Let_def)

text \<open>
  \<open>STORE_MEM 50\<close> is the word 3224; on a machine of 10 cells it halts the machine and
  the accumulator, 42, stays. The word 1 has the code 1, which is no operation.
\<close>

theorem execute_step_failure_halts_witness:
  "decode_command 3224 = Inr (24, 50) \<and>
   execute_step \<lparr>memory = [3224, 0, 0, 0, 0, 0, 0, 0, 0, 0], accumulator = 42, pc = 0,
                  halted = False\<rparr> =
     (Returned False, \<lparr>memory = [3224, 0, 0, 0, 0, 0, 0, 0, 0, 0], accumulator = 42, pc = 0,
                        halted = True\<rparr>) \<and>
   decode_command 1 = Inr (1, 0) \<and>
   execute_step \<lparr>memory = [1, 0], accumulator = - 3, pc = 0, halted = False\<rparr> =
     (Returned False, \<lparr>memory = [1, 0], accumulator = - 3, pc = 0, halted = True\<rparr>)"
proof -
  have d: "decode_command 3224 = Inr (24, 50)" "decode_command 1 = Inr (1, 0)"
    by (simp_all add: decode_command_def to_bytes5_little_def)
  show ?thesis
    using d
      execute_step_failure_halts
        [of "\<lparr>memory = [3224, 0, 0, 0, 0, 0, 0, 0, 0, 0], accumulator = 42, pc = 0,
               halted = False\<rparr>" 24 50]
      execute_step_failure_halts
        [of "\<lparr>memory = [1, 0], accumulator = - 3, pc = 0, halted = False\<rparr>" 1 0]
    by (auto simp: prod_eq_iff)
qed

text \<open>
  Claim C8. \<open>ABS\<close> with an operand at or beyond the end of the memory raises the memory
  error after the accumulator has been replaced by its absolute value: the step returns
  \<open>False\<close>, and the state differs from the one before in two fields only, the accumulator,
  now its absolute value, and \<open>halted\<close>, now true. Program counter and memory are as
  they were.
\<close>

theorem execute_step_abs_out_of_bounds:
  assumes "\<not> halted m" "pc m < length (memory m)" "memory m ! pc m \<noteq> 0"
    and "decode_command (memory m ! pc m) = Inr (7, opd)"
    and "opd \<ge> int (length (memory m))"
  shows "dispatch m 7 opd = (Some (MemoryOutOfBounds opd), m\<lparr>accumulator := \<bar>accumulator m\<bar>\<rparr>) \<and>
     execute_step m = (Returned False, m\<lparr>accumulator := \<bar>accumulator m\<bar>, halted := True\<rparr>)"
  using assms by (simp add: execute_step_def dispatch_def Let_def)

text \<open>\<open>ABS 50\<close> is the word 3207; on a machine of 10 cells with -5 in the accumulator.\<close>

theorem execute_step_abs_out_of_bounds_witness:
  "decode_command 3207 = Inr (7, 50) \<and>
   execute_step \<lparr>memory = [3207, 0, 0, 0, 0, 0, 0, 0, 0, 0], accumulator = - 5, pc = 0,
                  halted = False\<rparr> =
     (Returned False, \<lparr>memory = [3207, 0, 0, 0, 0, 0, 0, 0, 0, 0], accumulator = 5, pc = 0,
                        halted = True\<rparr>)"
proof -
  have d: "decode_command 3207 = Inr (7, 50)"
    by (simp add: decode_command_def to_bytes5_little_def)
  show ?thesis
    using d
      execute_step_abs_out_of_bounds
        [of "\<lparr>memory = [3207, 0, 0, 0, 0, 0, 0, 0, 0, 0], accumulator = - 5, pc = 0,
               halted = False\<rparr>" 50]
    by simp
qed

text \<open>
  Claim C9. On a halted machine \<open>execute_step\<close> returns \<open>False\<close> and changes nothing, so
  \<open>halted\<close> stays true; a \<open>load_program\<close> that succeeds leaves \<open>halted\<close> false.
\<close>

theorem halted_monotonic:
  "(halted m \<longrightarrow> execute_step m = (Returned False, m) \<and> halted (snd (execute_step m))) \<and>
   (length binary_data mod 5 = 0 \<longrightarrow> \<not> halted (snd (load_program m binary_data)))"
  by (simp add: execute_step_def load_program_def)

theorem halted_monotonic_witness:
  "execute_step \<lparr>memory = [2746, 0], accumulator = 0, pc = 0, halted = True\<rparr> =
     (Returned False, \<lparr>memory = [2746, 0], accumulator = 0, pc = 0, halted = True\<rparr>) \<and>
   halted (snd (execute_step \<lparr>memory = [2746, 0], accumulator = 0, pc = 0, halted = True\<rparr>)) \<and>
   \<not> halted (snd (load_program \<lparr>memory = [2746, 0], accumulator = 0, pc = 0, halted = True\<rparr>
                     [0x3A, 0x4D, 0x00, 0x00, 0x00]))"
  using halted_monotonic
      [of "\<lparr>memory = [2746, 0], accumulator = 0, pc = 0, halted = True\<rparr>"
          "[0x3A, 0x4D, 0x00, 0x00, 0x00]"]
  by simp

section \<open>The demonstration program\<close>

text \<open>
  Claim C7. The program \<open>LOAD_CONST 42\<close>, \<open>STORE_MEM 100\<close>, \<open>LOAD_CONST 15\<close>, \<open>ABS 101\<close>,
  \<open>LOAD_MEM 100\<close>, assembled, loaded into a machine of 1024 cells and stepped until
  \<open>execute_step\<close> returns \<open>False\<close>, takes 5 steps and ends with 42 in the accumulator, 42
  in cell 100, 15 in cell 101 and \<open>halted\<close> false.
\<close>

theorem demo_basic_end_to_end:
  "(case demo_basic test_program 1024 of
      Inl e \<Rightarrow> False
    | Inr (steps, m) \<Rightarrow>
        steps = 5 \<and> accumulator m = 42 \<and> memory m ! 100 = 42 \<and> memory m ! 101 = 15 \<and>
        halted m = False \<and> length (memory m) = 1024)"
  by code_simp

end
